theory Spec2Isabelle
  imports Complex_Main
begin

section \<open>Shared-expense ledger: balances and settlement plan\<close>

text \<open>
  The development embeds the two pure computations of \<^verbatim>\<open>src/index.tsx\<close>:
  the balance computation inside \<^verbatim>\<open>SettlementScreen\<close> (lines 331-359, repeated
  verbatim in \<^verbatim>\<open>GroupDetail\<close>, lines 1071-1099), which the specification calls
  \<^verbatim>\<open>computeBalances\<close>, and \<^verbatim>\<open>calculateSettlements\<close> (lines 65-88), which the
  specification calls \<^verbatim>\<open>computeSettlements\<close>.

  \<^item> JavaScript numbers are IEEE 754 binary64 values. They are modelled by the type
    \<^verbatim>\<open>number\<close> below: a finite value is carried as the rational it denotes, beside
    the two infinities and \<^verbatim>\<open>NaN\<close>; every arithmetic operation rounds its exact
    result to the nearest double, ties to even, and overflows to an infinity. The
    two zeros are identified: no operation of the two computations tells them apart
    (there is no division by a balance).
  \<^item> The object \<^verbatim>\<open>memberBalances\<close> is modelled by its own enumerable properties,
    kept in the order in which \<^verbatim>\<open>Object.values\<close> enumerates them, together with
    its prototype, which the assignment \<^verbatim>\<open>memberBalances['__proto__'] = ...\<close>
    replaces. Property reads go through the prototype chain.
\<close>

subsection \<open>Numbers\<close>

datatype number = Fin rat | PInf | NInf | NaN

text \<open>The number of binary digits of a positive integer.\<close>

function bit_length :: "int \<Rightarrow> int" where
  "bit_length n = (if n \<le> 0 then 0 else 1 + bit_length (n div 2))"
  by pat_completeness auto

termination
  by (relation "measure nat") auto

declare bit_length.simps [simp del]

text \<open>
  The binary exponent of a positive rational: \<open>\<lfloor>log\<^sub>2 x\<rfloor>\<close>, computed from the
  bit lengths of numerator and denominator.
\<close>

definition floor_log2 :: "rat \<Rightarrow> int" where
  "floor_log2 x =
     (let (p, q) = quotient_of x;
          d = bit_length p - bit_length q
      in if 2 powi d \<le> x then d else d - 1)"

text \<open>Rounding to the nearest integer, ties to the even one.\<close>

definition round_even :: "rat \<Rightarrow> int" where
  "round_even q =
     (let f = \<lfloor>q\<rfloor>; r = q - of_int f
      in if r < 1/2 then f else if 1/2 < r then f + 1 else if even f then f else f + 1)"

text \<open>
  The exponent of the unit in the last place of a non-zero value: 52 below its binary
  exponent, which is not taken below \<open>-1022\<close> (subnormal numbers).
\<close>

definition ulp_exponent :: "rat \<Rightarrow> int" where
  "ulp_exponent x = max (floor_log2 \<bar>x\<bar>) (- 1022) - 52"

text \<open>
  Rounding of an exact result to binary64. The significand \<open>m\<close> is the exact value
  scaled by the unit in the last place and rounded to an integer; the result
  overflows when it reaches \<open>2\<^sup>1\<^sup>0\<^sup>2\<^sup>4\<close>, that is when the unit exponent exceeds
  971, or equals 971 with a significand that reached \<open>2\<^sup>5\<^sup>3\<close>.
\<close>

definition fl :: "rat \<Rightarrow> number" where
  "fl x =
     (if x = 0 then Fin 0
      else let k = ulp_exponent x;
               m = round_even (x / 2 powi k)
           in if 971 < k \<or> (k = 971 \<and> 2 ^ 53 \<le> \<bar>m\<bar>) then (if 0 < x then PInf else NInf)
              else Fin (of_int m * 2 powi k))"



text \<open>Unary minus, \<^verbatim>\<open>+\<close>, \<^verbatim>\<open>-\<close> and \<^verbatim>\<open>/\<close> on numbers.\<close>

fun js_neg :: "number \<Rightarrow> number" where
  "js_neg (Fin x) = Fin (- x)"
| "js_neg PInf = NInf"
| "js_neg NInf = PInf"
| "js_neg NaN = NaN"

fun js_add :: "number \<Rightarrow> number \<Rightarrow> number" where
  "js_add NaN _ = NaN"
| "js_add _ NaN = NaN"
| "js_add PInf NInf = NaN"
| "js_add NInf PInf = NaN"
| "js_add PInf _ = PInf"
| "js_add _ PInf = PInf"
| "js_add NInf _ = NInf"
| "js_add _ NInf = NInf"
| "js_add (Fin x) (Fin y) = fl (x + y)"

definition js_sub :: "number \<Rightarrow> number \<Rightarrow> number" where
  "js_sub a b = js_add a (js_neg b)"

fun js_div :: "number \<Rightarrow> number \<Rightarrow> number" where
  "js_div NaN _ = NaN"
| "js_div _ NaN = NaN"
| "js_div (Fin x) (Fin y) =
     (if y = 0 then (if x = 0 then NaN else if 0 < x then PInf else NInf) else fl (x / y))"
| "js_div (Fin x) _ = Fin 0"
| "js_div PInf (Fin y) = (if 0 \<le> y then PInf else NInf)"
| "js_div NInf (Fin y) = (if 0 \<le> y then NInf else PInf)"
| "js_div _ _ = NaN"

text \<open>The comparison \<^verbatim>\<open><\<close>: false as soon as an operand is \<^verbatim>\<open>NaN\<close>.\<close>

fun js_lt :: "number \<Rightarrow> number \<Rightarrow> bool" where
  "js_lt NaN _ = False"
| "js_lt _ NaN = False"
| "js_lt (Fin x) (Fin y) = (x < y)"
| "js_lt NInf NInf = False"
| "js_lt NInf _ = True"
| "js_lt _ NInf = False"
| "js_lt PInf _ = False"
| "js_lt _ PInf = True"

text \<open>\<^verbatim>\<open>Math.abs\<close> and \<^verbatim>\<open>Math.min\<close> of two arguments.\<close>

fun js_abs :: "number \<Rightarrow> number" where
  "js_abs (Fin x) = Fin \<bar>x\<bar>"
| "js_abs PInf = PInf"
| "js_abs NInf = PInf"
| "js_abs NaN = NaN"

fun js_min :: "number \<Rightarrow> number \<Rightarrow> number" where
  "js_min NaN _ = NaN"
| "js_min _ NaN = NaN"
| "js_min a b = (if js_lt b a then b else a)"

text \<open>
  A number is falsy when it is zero or \<^verbatim>\<open>NaN\<close>; \<^verbatim>\<open>x || 0\<close> replaces a falsy
  number by zero.
\<close>

fun truthy_number :: "number \<Rightarrow> bool" where
  "truthy_number (Fin x) = (x \<noteq> 0)"
| "truthy_number NaN = False"
| "truthy_number _ = True"

definition or_zero :: "number \<Rightarrow> number" where
  "or_zero x = (if truthy_number x then x else Fin 0)"

text \<open>A decimal literal denotes the double nearest to its value.\<close>

definition literal :: "rat \<Rightarrow> number" where
  "literal x = fl x"

text \<open>
  The literal \<^verbatim>\<open>0.01\<close> of lines 84-85 denotes the double nearest to one hundredth,
  \<open>5764607523034235 / 2\<^sup>5\<^sup>9\<close>.
\<close>

definition tolerance :: number where
  "tolerance = Fin (5764607523034235 / 2 ^ 59)"

subsection \<open>Data model\<close>

text \<open>A group member, \<^verbatim>\<open>{ id, name }\<close>.\<close>

record member =
  member_id :: string
  member_name :: string

text \<open>One entry of \<^verbatim>\<open>expense.splits\<close>, \<^verbatim>\<open>{ memberId, amount }\<close>.\<close>

record split =
  memberId :: string
  split_amount :: number

text \<open>
  \<^verbatim>\<open>expense.splitType\<close>. The code only tests it against \<^verbatim>\<open>'unequal'\<close>; every other
  value takes the branch of \<open>Equal\<close>.
\<close>

datatype split_type = Equal | Unequal

text \<open>
  An expense, restricted to the fields the computation reads. An absent
  \<^verbatim>\<open>splits\<close> is the empty list: \<^verbatim>\<open>expense.splits?.length > 0\<close> is false for both.
\<close>

record expense =
  paidBy :: string
  amount :: number
  splitType :: split_type
  splits :: "split list"

text \<open>A balance object, \<^verbatim>\<open>{ id, name, balance }\<close>.\<close>

record member_balance =
  entry_id :: string
  entry_name :: string
  balance :: number

text \<open>
  A settlement entry, \<^verbatim>\<open>{ from, to, amount }\<close>. In the code \<^verbatim>\<open>from\<close> and \<^verbatim>\<open>to\<close> are
  the debtor and creditor objects themselves; the embedding keeps who they are.
\<close>

record settlement =
  from_member :: member
  to_member :: member
  settle_amount :: number

subsection \<open>The settlement planner\<close>

text \<open>The party named by a balance object.\<close>

definition party :: "member_balance \<Rightarrow> member" where
  "party m = \<lparr>member_id = entry_id m, member_name = entry_name m\<rparr>"

text \<open>
  \<^verbatim>\<open>Array.prototype.sort\<close> with a comparator: a stable sort, in which \<open>a\<close> goes
  behind \<open>b\<close> only when the comparator's value for \<open>(a, b)\<close> is greater than zero (a
  value of \<^verbatim>\<open>NaN\<close> counts as zero).
\<close>

fun insert_sorted :: "('a \<Rightarrow> 'a \<Rightarrow> number) \<Rightarrow> 'a \<Rightarrow> 'a list \<Rightarrow> 'a list" where
  "insert_sorted cmp a [] = [a]"
| "insert_sorted cmp a (b # bs) =
     (if js_lt (Fin 0) (cmp a b) then b # insert_sorted cmp a bs else a # b # bs)"

definition sort_with :: "('a \<Rightarrow> 'a \<Rightarrow> number) \<Rightarrow> 'a list \<Rightarrow> 'a list" where
  "sort_with cmp xs = foldr (insert_sorted cmp) xs []"

text \<open>
  The debtor and creditor lists of lines 66-67, with the comparators
  \<^verbatim>\<open>a.balance - b.balance\<close> and \<^verbatim>\<open>b.balance - a.balance\<close>. The \<^verbatim>\<open>map\<close> copies each
  object, so the input balances are never mutated.
\<close>

definition debtors_of :: "member_balance list \<Rightarrow> member_balance list" where
  "debtors_of balances =
     sort_with (\<lambda>a b. js_sub (balance a) (balance b))
       (filter (\<lambda>m. js_lt (balance m) (Fin 0)) balances)"

definition creditors_of :: "member_balance list \<Rightarrow> member_balance list" where
  "creditors_of balances =
     sort_with (\<lambda>a b. js_sub (balance b) (balance a))
       (filter (\<lambda>m. js_lt (Fin 0) (balance m)) balances)"

text \<open>
  The state of the \<^verbatim>\<open>while\<close> loop of lines 70-86: the two lists and the entries
  pushed so far.
\<close>

record settle_state =
  debtors :: "member_balance list"
  creditors :: "member_balance list"
  settlements :: "settlement list"

text \<open>The loop guard, \<^verbatim>\<open>debtors.length > 0 && creditors.length > 0\<close>.\<close>

definition settle_guard :: "settle_state \<Rightarrow> bool" where
  "settle_guard s = (length (debtors s) > 0 \<and> length (creditors s) > 0)"

text \<open>
  One run of the loop body (lines 71-85). The body is only entered under the guard;
  on a state with an empty list the function returns the state unchanged.
\<close>

fun settle_body ::
  "member_balance list \<Rightarrow> member_balance list \<Rightarrow> settlement list \<Rightarrow> settle_state" where
  "settle_body (debtor # ds) (creditor # cs) acc =
     (let amt = js_min (js_neg (balance debtor)) (balance creditor);
          entry = \<lparr>from_member = party debtor, to_member = party creditor,
                   settle_amount = amt\<rparr>;
          debtor' = debtor\<lparr>balance := js_add (balance debtor) amt\<rparr>;
          creditor' = creditor\<lparr>balance := js_sub (balance creditor) amt\<rparr>
      in \<lparr>debtors = (if js_lt (js_abs (balance debtor')) tolerance then ds else debtor' # ds),
          creditors = (if js_lt (js_abs (balance creditor')) tolerance then cs else creditor' # cs),
          settlements = acc @ [entry]\<rparr>)"
| "settle_body ds cs acc = \<lparr>debtors = ds, creditors = cs, settlements = acc\<rparr>"

definition settle_step :: "settle_state \<Rightarrow> settle_state" where
  "settle_step s = settle_body (debtors s) (creditors s) (settlements s)"

text \<open>
  The \<^verbatim>\<open>while\<close> loop. It need not end (see the infinite balances below), so its
  result is optional: \<open>None\<close> is a loop that runs forever.
\<close>

partial_function (option) settle_loop :: "settle_state \<Rightarrow> settle_state option" where
  "settle_loop s = (if settle_guard s then settle_loop (settle_step s) else Some s)"

declare settle_loop.simps [code]

text \<open>The state on loop entry (lines 66-68).\<close>

definition settle_init :: "member_balance list \<Rightarrow> settle_state" where
  "settle_init balances =
     \<lparr>debtors = debtors_of balances, creditors = creditors_of balances, settlements = []\<rparr>"

text \<open>\<^verbatim>\<open>calculateSettlements\<close>; \<open>None\<close> when the call never returns.\<close>

definition calculateSettlements :: "member_balance list \<Rightarrow> settlement list option" where
  "calculateSettlements balances = map_option settlements (settle_loop (settle_init balances))"


subsection \<open>The balance object\<close>

text \<open>
  \<^verbatim>\<open>memberBalances\<close> is a plain object used as a dictionary from member id to
  balance object. \<^verbatim>\<open>Object.values\<close> enumerates own string keys with the array
  indices first, in ascending numeric order, and the other keys after them, in the
  order of their creation. An array index is a canonical numeric string (decimal
  digits with no leading zero) whose value is at most \<open>2\<^sup>3\<^sup>2 - 2\<close>.
\<close>

definition is_digit :: "char \<Rightarrow> bool" where
  "is_digit c = (c \<in> set ''0123456789'')"

definition digits_value :: "string \<Rightarrow> int" where
  "digits_value k = foldl (\<lambda>n c. 10 * n + (of_char c - 48)) 0 k"

definition array_index :: "string \<Rightarrow> int option" where
  "array_index k =
     (if k \<noteq> [] \<and> list_all is_digit k \<and> (k = ''0'' \<or> hd k \<noteq> CHR ''0'')
         \<and> digits_value k < 4294967295
      then Some (digits_value k) else None)"

text \<open>Whether a new key \<open>k\<close> is enumerated before the existing key \<open>k'\<close>.\<close>

definition key_before :: "string \<Rightarrow> string \<Rightarrow> bool" where
  "key_before k k' =
     (case array_index k of
        None \<Rightarrow> False
      | Some i \<Rightarrow> (case array_index k' of None \<Rightarrow> True | Some j \<Rightarrow> i < j))"

text \<open>The own properties, in enumeration order.\<close>

type_synonym properties = "(string \<times> member_balance) list"

definition has_property :: "string \<Rightarrow> properties \<Rightarrow> bool" where
  "has_property k ps = (k \<in> set (map fst ps))"

fun insert_property :: "string \<Rightarrow> member_balance \<Rightarrow> properties \<Rightarrow> properties" where
  "insert_property k v [] = [(k, v)]"
| "insert_property k v ((k', v') # ps) =
     (if key_before k k' then (k, v) # (k', v') # ps else (k', v') # insert_property k v ps)"

text \<open>
  Writing an own property: an existing key keeps its place and takes the new value,
  a new key is created.
\<close>

definition set_property :: "string \<Rightarrow> member_balance \<Rightarrow> properties \<Rightarrow> properties" where
  "set_property k v ps =
     (if has_property k ps then map (\<lambda>(k', v'). if k' = k then (k', v) else (k', v')) ps
      else insert_property k v ps)"

text \<open>Replacing the \<^verbatim>\<open>balance\<close> field of the record under an own key.\<close>

definition update_record :: "(number \<Rightarrow> number) \<Rightarrow> string \<Rightarrow> properties \<Rightarrow> properties" where
  "update_record f k ps =
     map (\<lambda>(k', b). if k' = k then (k', b\<lparr>balance := f (balance b)\<rparr>) else (k', b)) ps"

text \<open>
  The object: its own properties and its prototype. \<open>None\<close> is the initial prototype
  \<^verbatim>\<open>Object.prototype\<close>; \<open>Some r\<close> is a balance record that an assignment to the key
  \<^verbatim>\<open>__proto__\<close> has installed as prototype (the prototype of that record is
  \<^verbatim>\<open>Object.prototype\<close> in turn).
\<close>

record balances_obj =
  own :: properties
  proto :: "member_balance option"

definition empty_obj :: balances_obj where
  "empty_obj = \<lparr>own = [], proto = None\<rparr>"

text \<open>
  The assignment \<^verbatim>\<open>memberBalances[k] = v\<close> of line 334, for a record \<open>v\<close>. The key
  \<^verbatim>\<open>__proto__\<close> reaches the accessor inherited from \<^verbatim>\<open>Object.prototype\<close>, which
  replaces the prototype and creates no own property.
\<close>

definition obj_set :: "string \<Rightarrow> member_balance \<Rightarrow> balances_obj \<Rightarrow> balances_obj" where
  "obj_set k v obj =
     (if k = ''__proto__'' then obj\<lparr>proto := Some v\<rparr>
      else obj\<lparr>own := set_property k v (own obj)\<rparr>)"

text \<open>The data properties of \<^verbatim>\<open>Object.prototype\<close>, all of them functions.\<close>

definition builtin_names :: "string list" where
  "builtin_names =
     [''constructor'', ''__defineGetter__'', ''__defineSetter__'', ''hasOwnProperty'',
      ''__lookupGetter__'', ''__lookupSetter__'', ''isPrototypeOf'', ''propertyIsEnumerable'',
      ''toString'', ''valueOf'', ''toLocaleString'']"

text \<open>
  What the read \<^verbatim>\<open>memberBalances[k]\<close> finds: the record under an own key; the
  prototype itself for the key \<^verbatim>\<open>__proto__\<close>; a string or a number inherited from
  a record installed as prototype, of which only the truth value matters; a function
  inherited from \<^verbatim>\<open>Object.prototype\<close>; or \<^verbatim>\<open>undefined\<close>.
\<close>

datatype looked_up = Own_record | Prototype_object | Primitive bool | Builtin_function | Undefined

definition lookup :: "string \<Rightarrow> balances_obj \<Rightarrow> looked_up" where
  "lookup k obj =
     (if has_property k (own obj) then Own_record
      else if k = ''__proto__'' then Prototype_object
      else (case proto obj of
              Some r \<Rightarrow>
                if k = ''id'' then Primitive (entry_id r \<noteq> [])
                else if k = ''name'' then Primitive (entry_name r \<noteq> [])
                else if k = ''balance'' then Primitive (truthy_number (balance r))
                else if k \<in> set builtin_names then Builtin_function else Undefined
            | None \<Rightarrow> if k \<in> set builtin_names then Builtin_function else Undefined))"

text \<open>The truth value tested by \<^verbatim>\<open>if (memberBalances[k])\<close>.\<close>

fun truthy :: "looked_up \<Rightarrow> bool" where
  "truthy (Primitive t) = t"
| "truthy Undefined = False"
| "truthy _ = True"

subsection \<open>The balance engine\<close>

text \<open>
  The compound assignments \<^verbatim>\<open>memberBalances[k].balance += x\<close> and \<^verbatim>\<open>-= x\<close> raise a
  \<^verbatim>\<open>TypeError\<close> when \<^verbatim>\<open>memberBalances[k]\<close> is \<^verbatim>\<open>undefined\<close>, and also when it is a
  string or a number: the source is a module, so it runs in strict mode, where
  creating a property on a primitive value is an error.
\<close>

datatype error = TypeError

text \<open>
  The compound assignment, \<open>f\<close> being the change of the balance. A write to the
  prototype changes the installed record, which \<^verbatim>\<open>Object.values\<close> does not
  return; a write that lands on \<^verbatim>\<open>Object.prototype\<close> or on one of its functions
  leaves \<^verbatim>\<open>memberBalances\<close> as it is (the value written there is \<^verbatim>\<open>NaN\<close>, which
  later reads of the key \<^verbatim>\<open>balance\<close> treat like \<^verbatim>\<open>undefined\<close>).
\<close>

definition update_balance ::
  "(number \<Rightarrow> number) \<Rightarrow> string \<Rightarrow> balances_obj \<Rightarrow> error + balances_obj" where
  "update_balance f k obj =
     (case lookup k obj of
        Own_record \<Rightarrow> Inr (obj\<lparr>own := update_record f k (own obj)\<rparr>)
      | Prototype_object \<Rightarrow>
          Inr (case proto obj of
                 Some r \<Rightarrow> obj\<lparr>proto := Some (r\<lparr>balance := f (balance r)\<rparr>)\<rparr>
               | None \<Rightarrow> obj)
      | Builtin_function \<Rightarrow> Inr obj
      | Primitive t \<Rightarrow> Inl TypeError
      | Undefined \<Rightarrow> Inl TypeError)"

text \<open>The same assignment under the guard \<^verbatim>\<open>if (memberBalances[k])\<close>.\<close>

definition guarded_update ::
  "(number \<Rightarrow> number) \<Rightarrow> string \<Rightarrow> balances_obj \<Rightarrow> error + balances_obj" where
  "guarded_update f k obj =
     (if truthy (lookup k obj) then update_balance f k obj else Inr obj)"

text \<open>A \<^verbatim>\<open>forEach\<close> whose callback may raise: the first error ends the loop.\<close>

fun for_each :: "('a \<Rightarrow> 's \<Rightarrow> error + 's) \<Rightarrow> 'a list \<Rightarrow> 's \<Rightarrow> error + 's" where
  "for_each f [] s = Inr s"
| "for_each f (x # xs) s = (case f x s of Inl e \<Rightarrow> Inl e | Inr s' \<Rightarrow> for_each f xs s')"

text \<open>Lines 333-335: one zero balance record per member, assigned under the member's id.\<close>

definition init_balances :: "member list \<Rightarrow> balances_obj" where
  "init_balances members =
     foldl (\<lambda>obj m. obj_set (member_id m)
              \<lparr>entry_id = member_id m, entry_name = member_name m, balance = Fin 0\<rparr> obj)
       empty_obj members"

text \<open>Lines 340-342: the payer is credited with the whole amount, under the guard.\<close>

definition credit_payer :: "expense \<Rightarrow> balances_obj \<Rightarrow> error + balances_obj" where
  "credit_payer e obj = guarded_update (\<lambda>b. js_add b (amount e)) (paidBy e) obj"

text \<open>Lines 346-348: one split entry is subtracted, under the guard.\<close>

definition subtract_split :: "split \<Rightarrow> balances_obj \<Rightarrow> error + balances_obj" where
  "subtract_split sp obj =
     guarded_update (\<lambda>b. js_sub b (or_zero (split_amount sp))) (memberId sp) obj"

text \<open>Line 353: the share is subtracted from a member, with no guard.\<close>

definition subtract_share :: "number \<Rightarrow> member \<Rightarrow> balances_obj \<Rightarrow> error + balances_obj" where
  "subtract_share sharePerMember m obj =
     update_balance (\<lambda>b. js_sub b sharePerMember) (member_id m) obj"

text \<open>
  Lines 344-355: the subtraction part of one expense. The division is only reached
  with a non-empty member list, because of the early return of line 337.
\<close>

definition subtract_shares :: "member list \<Rightarrow> expense \<Rightarrow> balances_obj \<Rightarrow> error + balances_obj" where
  "subtract_shares members e obj =
     (if splitType e = Unequal \<and> length (splits e) > 0
      then for_each subtract_split (splits e) obj
      else for_each (subtract_share (js_div (amount e) (Fin (of_nat (length members)))))
             members obj)"

text \<open>Lines 339-356: the callback run for one expense.\<close>

definition apply_expense :: "member list \<Rightarrow> expense \<Rightarrow> balances_obj \<Rightarrow> error + balances_obj" where
  "apply_expense members e obj =
     (case credit_payer e obj of
        Inl err \<Rightarrow> Inl err
      | Inr obj' \<Rightarrow> subtract_shares members e obj')"

text \<open>The object after all expenses have been processed.\<close>

definition balances_after :: "member list \<Rightarrow> expense list \<Rightarrow> error + balances_obj" where
  "balances_after members expenses =
     for_each (apply_expense members) expenses (init_balances members)"

text \<open>The whole computation, lines 331-359; the result is \<^verbatim>\<open>Object.values\<close> of the object.\<close>

definition computeBalances :: "member list \<Rightarrow> expense list \<Rightarrow> error + member_balance list" where
  "computeBalances members expenses =
     (if length members = 0 then Inr []
      else (case balances_after members expenses of
              Inl err \<Rightarrow> Inl err
            | Inr obj \<Rightarrow> Inr (map snd (own obj))))"

subsection \<open>Vocabulary of the properties\<close>












text \<open>A members list none of whose ids is \<^verbatim>\<open>__proto__\<close>.\<close>

definition no_proto_id :: "member list \<Rightarrow> bool" where
  "no_proto_id members = (''__proto__'' \<notin> set (map member_id members))"

text \<open>The record created for a member by line 334, and the assignment of that line.\<close>

definition zero_record :: "member \<Rightarrow> member_balance" where
  "zero_record m = \<lparr>entry_id = member_id m, entry_name = member_name m, balance = Fin 0\<rparr>"

definition init_step :: "properties \<Rightarrow> member \<Rightarrow> properties" where
  "init_step ps m = set_property (member_id m) (zero_record m) ps"

text \<open>
  The effect of the three updates and of one expense on the own properties, when
  nothing is inherited from a member record and every member id is an own key.
\<close>

definition pay :: "properties \<Rightarrow> expense \<Rightarrow> properties" where
  "pay ps e = update_record (\<lambda>b. js_add b (amount e)) (paidBy e) ps"

definition split_step :: "properties \<Rightarrow> split \<Rightarrow> properties" where
  "split_step ps sp =
     update_record (\<lambda>b. js_sub b (or_zero (split_amount sp))) (memberId sp) ps"

definition share_step :: "number \<Rightarrow> properties \<Rightarrow> member \<Rightarrow> properties" where
  "share_step sh ps m = update_record (\<lambda>b. js_sub b sh) (member_id m) ps"

definition share_of :: "member list \<Rightarrow> expense \<Rightarrow> number" where
  "share_of members e = js_div (amount e) (Fin (of_nat (length members)))"

definition expense_step :: "member list \<Rightarrow> properties \<Rightarrow> expense \<Rightarrow> properties" where
  "expense_step members ps e =
     (if splitType e = Unequal \<and> splits e \<noteq> []
      then foldl split_step (pay ps e) (splits e)
      else foldl (share_step (share_of members e)) (pay ps e) members)"

text \<open>An object with the initial prototype in which every member id is an own key.\<close>

definition members_known :: "member list \<Rightarrow> balances_obj \<Rightarrow> bool" where
  "members_known members obj =
     (proto obj = None \<and> list_all (\<lambda>m. has_property (member_id m) (own obj)) members)"

text \<open>Two members, and an object holding a balance for each.\<close>

definition ab_members :: "member list" where
  "ab_members = [\<lparr>member_id = ''A'', member_name = ''Ali''\<rparr>,
                 \<lparr>member_id = ''B'', member_name = ''Veli''\<rparr>]"

definition ab_object :: balances_obj where
  "ab_object =
     \<lparr>own = [(''A'', \<lparr>entry_id = ''A'', entry_name = ''Ali'', balance = Fin 70\<rparr>),
              (''B'', \<lparr>entry_id = ''B'', entry_name = ''Veli'', balance = Fin (- 70)\<rparr>)],
      proto = None\<rparr>"

text \<open>The group of the scenario and its one expense.\<close>

definition abc_members :: "member list" where
  "abc_members = [\<lparr>member_id = ''A'', member_name = ''Ali''\<rparr>,
                  \<lparr>member_id = ''B'', member_name = ''Veli''\<rparr>,
                  \<lparr>member_id = ''C'', member_name = ''Can''\<rparr>]"

definition abc_expense :: expense where
  "abc_expense = \<lparr>paidBy = ''A'', amount = Fin 90, splitType = Equal, splits = []\<rparr>"

text \<open>A group in which one member has the id \<^verbatim>\<open>__proto__\<close>.\<close>

definition proto_members :: "member list" where
  "proto_members = [\<lparr>member_id = ''__proto__'', member_name = ''Pat''\<rparr>,
                    \<lparr>member_id = ''A'', member_name = ''Ali''\<rparr>]"

section \<open>Properties\<close>

subsection \<open>Rounding\<close>

lemma bit_length_pos: "0 < n \<Longrightarrow> 0 < bit_length n"
proof -
  assume "0 < n"
  have "0 \<le> bit_length m" for m
    by (induction m rule: bit_length.induct) (subst bit_length.simps, simp)
  then have "0 \<le> bit_length (n div 2)" .
  moreover have "bit_length n = 1 + bit_length (n div 2)"
    using \<open>0 < n\<close> by (subst bit_length.simps) simp
  ultimately show ?thesis by simp
qed

lemma bit_length_bounds:
  "0 < n \<Longrightarrow> 2 ^ nat (bit_length n - 1) \<le> n \<and> n < 2 ^ nat (bit_length n)"
proof (induction n rule: bit_length.induct)
  case (1 n)
  show ?case
  proof (cases "n = 1")
    case True
    have "bit_length 1 = 1 + bit_length 0" by (subst bit_length.simps) simp
    also have "bit_length 0 = 0" by (subst bit_length.simps) simp
    finally show ?thesis using True by simp
  next
    case False
    with "1.prems" have h: "0 < n div 2" by simp
    then have IH: "2 ^ nat (bit_length (n div 2) - 1) \<le> n div 2"
      "n div 2 < 2 ^ nat (bit_length (n div 2))"
      using "1.IH" "1.prems" by simp_all
    have b: "bit_length n = 1 + bit_length (n div 2)"
      using "1.prems" by (subst bit_length.simps) simp
    have p: "0 < bit_length (n div 2)" using h by (rule bit_length_pos)
    have e1: "nat (bit_length n - 1) = Suc (nat (bit_length (n div 2) - 1))"
      using p b by simp
    have e2: "nat (bit_length n) = Suc (nat (bit_length (n div 2)))"
      using p b by simp
    have "2 * 2 ^ nat (bit_length (n div 2) - 1) \<le> 2 * (n div 2)" using IH(1) by simp
    also have "\<dots> \<le> n" by simp
    finally have l: "2 ^ nat (bit_length n - 1) \<le> n" by (simp add: e1)
    have "n div 2 + 1 \<le> 2 ^ nat (bit_length (n div 2))" using IH(2) by simp
    then have "2 * (n div 2) + 2 \<le> 2 * 2 ^ nat (bit_length (n div 2))" by simp
    moreover have "n < 2 * (n div 2) + 2" by simp
    ultimately have u: "n < 2 ^ nat (bit_length n)" by (simp add: e2)
    from l u show ?thesis by simp
  qed
qed

lemma bit_length_rat_bounds:
  assumes "0 < n"
  shows "(2::rat) powi (bit_length n - 1) \<le> of_int n" "of_int n < (2::rat) powi bit_length n"
proof -
  have p: "0 < bit_length n" using assms by (rule bit_length_pos)
  have b: "2 ^ nat (bit_length n - 1) \<le> n" "n < 2 ^ nat (bit_length n)"
    using bit_length_bounds [OF assms] by simp_all
  have "(of_int (2 ^ nat (bit_length n - 1)) :: rat) \<le> of_int n"
    using b(1) by (simp only: of_int_le_iff)
  then show "(2::rat) powi (bit_length n - 1) \<le> of_int n"
    using p by (simp add: power_int_def)
  have "(of_int n :: rat) < of_int (2 ^ nat (bit_length n))"
    using b(2) by (simp only: of_int_less_iff)
  then show "of_int n < (2::rat) powi bit_length n"
    using p by (simp add: power_int_def)
qed

lemma floor_log2_bounds:
  assumes "0 < x"
  shows "2 powi (floor_log2 x) \<le> x" "x < 2 powi (floor_log2 x + 1)"
proof -
  obtain p q where pq: "quotient_of x = (p, q)" by (cases "quotient_of x")
  have q: "0 < q" using quotient_of_denom_pos [OF pq] .
  have x: "x = of_int p / of_int q" using quotient_of_div [OF pq] .
  have p: "0 < p" using assms q x by (simp add: zero_less_divide_iff)
  define bp where "bp = bit_length p"
  define bq where "bq = bit_length q"
  have P: "(2::rat) powi (bp - 1) \<le> of_int p" "of_int p < (2::rat) powi bp"
    using bit_length_rat_bounds [OF p] by (simp_all add: bp_def)
  have Q: "(2::rat) powi (bq - 1) \<le> of_int q" "of_int q < (2::rat) powi bq"
    using bit_length_rat_bounds [OF q] by (simp_all add: bq_def)
  define d where "d = bp - bq"
  have fl: "floor_log2 x = (if 2 powi d \<le> x then d else d - 1)"
    by (simp add: floor_log2_def pq d_def bp_def bq_def Let_def)
  have up: "x < 2 powi (d + 1)"
  proof -
    have "of_int p / of_int q < (2::rat) powi bp / 2 powi (bq - 1)"
      by (rule frac_less) (use P Q p q in simp_all)
    also have "(2::rat) powi bp / 2 powi (bq - 1) = 2 powi (bp - (bq - 1))"
      by (simp add: power_int_diff)
    also have "bp - (bq - 1) = d + 1" by (simp add: d_def)
    finally show ?thesis using x by simp
  qed
  have low: "2 powi (d - 1) \<le> x"
  proof -
    have "(2::rat) powi (bp - 1) / 2 powi bq \<le> of_int p / of_int q"
      by (rule frac_le) (use P Q p q in simp_all)
    moreover have "(2::rat) powi (bp - 1) / 2 powi bq = 2 powi (bp - 1 - bq)"
      by (simp add: power_int_diff)
    moreover have "bp - 1 - bq = d - 1" by (simp add: d_def)
    ultimately show ?thesis using x by simp
  qed
  show "2 powi (floor_log2 x) \<le> x" using low by (simp add: fl)
  have "2 powi d \<le> x \<or> x < 2 powi d" by linarith
  then show "x < 2 powi (floor_log2 x + 1)"
    using up by (auto simp: fl)
qed






lemma round_even_error: "\<bar>of_int (round_even q) - q\<bar> \<le> 1/2"
proof -
  define f where "f = \<lfloor>q\<rfloor>"
  have 3: "of_int f \<le> q" "q < of_int f + 1" by (simp_all add: f_def) linarith
  have r: "round_even q = (if q - of_int f < 1/2 then f else if 1/2 < q - of_int f then f + 1
     else if even f then f else f + 1)"
    by (simp add: round_even_def Let_def f_def)
  consider "q - of_int f < 1/2" | "1/2 < q - of_int f" | "q - of_int f = 1/2" by linarith
  then show ?thesis
  proof cases
    case 1
    then have "round_even q = f" by (simp add: r)
    then show ?thesis using 1 3 by (simp add: abs_if)
  next
    case 2
    then have "round_even q = f + 1" by (simp add: r)
    then show ?thesis using 2 3 by (simp add: abs_if)
  next
    case 3
    then have "round_even q = f \<or> round_even q = f + 1" by (simp add: r)
    then show ?thesis using 3 by (auto simp: abs_if)
  qed
qed




lemma fl_nonzero:
  assumes "x \<noteq> 0"
  shows "fl x = (if 971 < ulp_exponent x \<or>
                    (ulp_exponent x = 971 \<and> 2 ^ 53 \<le> \<bar>round_even (x / 2 powi ulp_exponent x)\<bar>)
                 then (if 0 < x then PInf else NInf)
                 else Fin (of_int (round_even (x / 2 powi ulp_exponent x)) * 2 powi ulp_exponent x))"
  using assms by (simp add: fl_def Let_def)




text \<open>The error of a rounding that does not overflow.\<close>

lemma fl_error:
  assumes "fl x = Fin r"
  shows "\<bar>r - x\<bar> \<le> \<bar>x\<bar> / 2 ^ 53 + 1 / 2 ^ 1075"
proof (cases "x = 0")
  case True
  then show ?thesis using assms by (simp add: fl_def)
next
  case False
  define k where "k = ulp_exponent x"
  define m where "m = round_even (x / 2 powi k)"
  have pos: "(0::rat) < 2 powi k" by simp
  have r: "r = of_int m * 2 powi k"
    using assms unfolding fl_nonzero [OF False] k_def [symmetric] m_def [symmetric]
    by (auto split: if_splits)
  have "r - x = (of_int m - x / 2 powi k) * 2 powi k"
    using pos by (simp add: r algebra_simps)
  then have "\<bar>r - x\<bar> = \<bar>of_int m - x / 2 powi k\<bar> * 2 powi k"
    using pos by (simp add: abs_mult)
  also have "\<dots> \<le> 1/2 * 2 powi k"
    using round_even_error [of "x / 2 powi k"] pos unfolding m_def
    by (intro mult_right_mono) simp_all
  finally have e: "\<bar>r - x\<bar> \<le> 2 powi k / 2" by simp
  have "(2::rat) powi k / 2 \<le> \<bar>x\<bar> / 2 ^ 53 + 1 / 2 ^ 1075"
  proof (cases "- 1022 \<le> floor_log2 \<bar>x\<bar>")
    case True
    then have "k = floor_log2 \<bar>x\<bar> - 52" by (simp add: k_def ulp_exponent_def)
    then have "(2::rat) powi k = 2 powi floor_log2 \<bar>x\<bar> / 2 ^ 52"
      by (simp add: power_int_diff)
    moreover have "2 powi floor_log2 \<bar>x\<bar> \<le> \<bar>x\<bar>"
      using floor_log2_bounds(1) [of "\<bar>x\<bar>"] False by simp
    ultimately have "(2::rat) powi k / 2 \<le> \<bar>x\<bar> / 2 ^ 53"
      by (simp add: divide_right_mono)
    then show ?thesis by simp
  next
    case False
    then have "k = - 1074" by (simp add: k_def ulp_exponent_def)
    then have "(2::rat) powi k / 2 = 1 / 2 ^ 1075"
      by (simp add: power_int_minus_divide)
    then show ?thesis by simp
  qed
  with e show ?thesis by linarith
qed

subsection \<open>The settlement loop\<close>





lemma tolerance_pos: "js_lt (js_abs (Fin 0)) tolerance"
  by (simp add: tolerance_def)


































lemma tolerance_literal: "tolerance = literal (1/100)"
  unfolding tolerance_def literal_def by code_simp

text \<open>
  Claim C2 (balances within the tolerance). Evaluated on the embedding: the balances
  \<open>-0.005\<close> and \<open>0.005\<close>, both strictly within \<open>0.01\<close> of zero and not zero, are
  kept by the partition of lines 66-67, which tests \<^verbatim>\<open>balance < 0\<close> and
  \<^verbatim>\<open>balance > 0\<close>, and an entry of \<open>0.005\<close> from the one to the other is emitted.
\<close>

theorem small_balances_enter_the_plan:
  "debtors_of [\<lparr>entry_id = ''A'', entry_name = ''Ali'', balance = js_neg (literal (5/1000))\<rparr>,
               \<lparr>entry_id = ''B'', entry_name = ''Veli'', balance = literal (5/1000)\<rparr>]
     = [\<lparr>entry_id = ''A'', entry_name = ''Ali'', balance = js_neg (literal (5/1000))\<rparr>]
   \<and> creditors_of [\<lparr>entry_id = ''A'', entry_name = ''Ali'', balance = js_neg (literal (5/1000))\<rparr>,
               \<lparr>entry_id = ''B'', entry_name = ''Veli'', balance = literal (5/1000)\<rparr>]
     = [\<lparr>entry_id = ''B'', entry_name = ''Veli'', balance = literal (5/1000)\<rparr>]
   \<and> calculateSettlements
        [\<lparr>entry_id = ''A'', entry_name = ''Ali'', balance = js_neg (literal (5/1000))\<rparr>,
         \<lparr>entry_id = ''B'', entry_name = ''Veli'', balance = literal (5/1000)\<rparr>]
     = Some [\<lparr>from_member = \<lparr>member_id = ''A'', member_name = ''Ali''\<rparr>,
              to_member = \<lparr>member_id = ''B'', member_name = ''Veli''\<rparr>,
              settle_amount = literal (5/1000)\<rparr>]
   \<and> js_lt (js_abs (literal (5/1000))) tolerance
   \<and> js_lt (Fin 0) (js_abs (literal (5/1000)))"
  by code_simp

subsection \<open>Keys of the balance object\<close>

lemma keys_update_record: "map fst (update_record f k ps) = map fst ps"
  by (induction ps) (auto simp: update_record_def)

lemma has_property_update_record:
  "has_property k' (update_record f k ps) = has_property k' ps"
  by (simp add: has_property_def keys_update_record)

lemma update_record_unknown: "\<not> has_property k ps \<Longrightarrow> update_record f k ps = ps"
  by (induction ps) (auto simp: update_record_def has_property_def)

lemma set_insert_property: "set (insert_property k v ps) = insert (k, v) (set ps)"
  by (induction ps) (auto split: if_splits)

lemma keys_insert_property:
  "set (map fst (insert_property k v ps)) = insert k (set (map fst ps))"
  by (simp add: set_insert_property)

lemma distinct_insert_property:
  "k \<notin> set (map fst ps) \<Longrightarrow> distinct (map fst ps) \<Longrightarrow> distinct (map fst (insert_property k v ps))"
  by (induction ps) (auto simp: set_insert_property)

lemma keys_replace:
  "map fst (map (\<lambda>(k', v'). if k' = k then (k', v) else (k', v')) ps) = map fst ps"
  by (induction ps) auto

lemma keys_set_property: "set (map fst (set_property k v ps)) = insert k (set (map fst ps))"
proof (cases "has_property k ps")
  case True
  then have "set_property k v ps = map (\<lambda>(k', v'). if k' = k then (k', v) else (k', v')) ps"
    by (simp add: set_property_def)
  then have "map fst (set_property k v ps) = map fst ps"
    by (simp only: keys_replace)
  with True show ?thesis by (auto simp: has_property_def)
next
  case False
  then show ?thesis by (simp only: set_property_def if_False keys_insert_property)
qed

lemma distinct_set_property:
  "distinct (map fst ps) \<Longrightarrow> distinct (map fst (set_property k v ps))"
proof (cases "has_property k ps")
  case True
  then have "set_property k v ps = map (\<lambda>(k', v'). if k' = k then (k', v) else (k', v')) ps"
    by (simp add: set_property_def)
  then have "map fst (set_property k v ps) = map fst ps"
    by (simp only: keys_replace)
  then show "distinct (map fst ps) \<Longrightarrow> ?thesis" by simp
next
  case False
  then have "k \<notin> set (map fst ps)" by (simp add: has_property_def)
  moreover have "set_property k v ps = insert_property k v ps"
    using False by (simp add: set_property_def)
  ultimately show "distinct (map fst ps) \<Longrightarrow> ?thesis"
    using distinct_insert_property [of k ps v] by simp
qed

lemma keys_init_fold:
  "set (map fst (foldl init_step ps ms)) = set (map fst ps) \<union> member_id ` set ms"
  by (induction ms arbitrary: ps) (auto simp: init_step_def keys_set_property simp del: set_map)

lemma distinct_init_fold:
  "distinct (map fst ps) \<Longrightarrow> distinct (map fst (foldl init_step ps ms))"
  by (induction ms arbitrary: ps) (auto simp: init_step_def distinct_set_property)

text \<open>Without a member called \<^verbatim>\<open>__proto__\<close> the prototype is never replaced.\<close>

lemma init_fold_plain:
  "''__proto__'' \<notin> member_id ` set ms \<Longrightarrow>
     foldl (\<lambda>obj m. obj_set (member_id m) (zero_record m) obj) obj ms
       = obj\<lparr>own := foldl init_step (own obj) ms\<rparr>"
  by (induction ms arbitrary: obj) (auto simp: obj_set_def init_step_def)

lemma init_balances_plain:
  "no_proto_id ms \<Longrightarrow> init_balances ms = \<lparr>own = foldl init_step [] ms, proto = None\<rparr>"
  using init_fold_plain [of ms empty_obj]
  by (simp add: init_balances_def no_proto_id_def zero_record_def [abs_def] empty_obj_def)

lemma members_known_init: "no_proto_id ms \<Longrightarrow> members_known ms (init_balances ms)"
  using keys_init_fold [of "[]" ms]
  by (auto simp: init_balances_plain members_known_def has_property_def list_all_iff
      simp del: set_map)

subsection \<open>No step fails\<close>

text \<open>
  With the initial prototype, a guarded update raises nothing, and it changes the
  record under the key if the key is an own one and nothing otherwise.
\<close>

lemma guarded_update_plain:
  assumes "proto obj = None"
  shows "guarded_update f k obj = Inr (obj\<lparr>own := update_record f k (own obj)\<rparr>)"
proof (cases "has_property k (own obj)")
  case True
  then show ?thesis by (simp add: guarded_update_def update_balance_def lookup_def)
next
  case False
  then have "update_record f k (own obj) = own obj" by (rule update_record_unknown)
  then show ?thesis
    using False assms by (simp add: guarded_update_def update_balance_def lookup_def)
qed

lemma update_balance_own:
  assumes "has_property k (own obj)"
  shows "update_balance f k obj = Inr (obj\<lparr>own := update_record f k (own obj)\<rparr>)"
  using assms by (simp add: update_balance_def lookup_def)

lemma members_known_update:
  "members_known ms obj \<Longrightarrow> members_known ms (obj\<lparr>own := update_record f k (own obj)\<rparr>)"
  by (simp add: members_known_def has_property_update_record)

lemma for_each_pure:
  assumes "\<And>x s. x \<in> set xs \<Longrightarrow> I s \<Longrightarrow> f x s = Inr (g s x) \<and> I (g s x)" and "I s"
  shows "for_each f xs s = Inr (foldl g s xs) \<and> I (foldl g s xs)"
  using assms
proof (induction xs arbitrary: s)
  case Nil
  then show ?case by simp
next
  case (Cons x xs)
  have 1: "f x s = Inr (g s x)" "I (g s x)" using Cons.prems by simp_all
  have "for_each f xs (g s x) = Inr (foldl g (g s x) xs) \<and> I (foldl g (g s x) xs)"
    by (rule Cons.IH) (use Cons.prems 1 in simp_all)
  with 1 show ?case by simp
qed

lemma foldl_own:
  "foldl (\<lambda>obj x. obj\<lparr>own := h (own obj) x\<rparr>) obj xs = obj\<lparr>own := foldl h (own obj) xs\<rparr>"
  by (induction xs arbitrary: obj) simp_all

lemma credit_payer_known:
  "members_known ms obj \<Longrightarrow> credit_payer e obj = Inr (obj\<lparr>own := pay (own obj) e\<rparr>)"
  by (simp add: credit_payer_def pay_def guarded_update_plain members_known_def)

lemma subtract_splits_known:
  assumes "members_known ms obj"
  shows "for_each subtract_split sps obj = Inr (obj\<lparr>own := foldl split_step (own obj) sps\<rparr>)"
proof -
  have "for_each subtract_split sps obj
      = Inr (foldl (\<lambda>obj sp. obj\<lparr>own := split_step (own obj) sp\<rparr>) obj sps)
    \<and> members_known ms (foldl (\<lambda>obj sp. obj\<lparr>own := split_step (own obj) sp\<rparr>) obj sps)"
    by (rule for_each_pure [where I = "members_known ms"])
      (use assms in \<open>auto simp: subtract_split_def split_step_def guarded_update_plain
         members_known_def has_property_update_record\<close>)
  then show ?thesis by (simp add: foldl_own)
qed

lemma subtract_equal_known:
  assumes "members_known ms obj"
  shows "for_each (subtract_share sh) ms obj
       = Inr (obj\<lparr>own := foldl (share_step sh) (own obj) ms\<rparr>)"
proof -
  have "for_each (subtract_share sh) ms obj
      = Inr (foldl (\<lambda>obj m. obj\<lparr>own := share_step sh (own obj) m\<rparr>) obj ms)
    \<and> members_known ms (foldl (\<lambda>obj m. obj\<lparr>own := share_step sh (own obj) m\<rparr>) obj ms)"
    by (rule for_each_pure [where I = "members_known ms"])
      (use assms in \<open>auto simp: subtract_share_def share_step_def update_balance_own
         members_known_def has_property_update_record list_all_iff\<close>)
  then show ?thesis by (simp add: foldl_own)
qed

lemma keys_foldl_update:
  assumes "\<And>ps x. map fst (h ps x) = map fst ps"
  shows "map fst (foldl h ps xs) = map fst ps"
  using assms by (induction xs arbitrary: ps) simp_all

lemma keys_expense_step: "map fst (expense_step ms ps e) = map fst ps"
proof -
  have 1: "map fst (foldl split_step qs sps) = map fst qs" for qs sps
    by (rule keys_foldl_update) (simp add: split_step_def keys_update_record)
  have 2: "map fst (foldl (share_step sh) qs xs) = map fst qs" for qs xs sh
    by (rule keys_foldl_update) (simp add: share_step_def keys_update_record)
  show ?thesis by (simp add: expense_step_def 1 2 pay_def keys_update_record)
qed

lemma apply_expense_known:
  assumes "members_known ms obj"
  shows "apply_expense ms e obj = Inr (obj\<lparr>own := expense_step ms (own obj) e\<rparr>)"
    and "members_known ms (obj\<lparr>own := expense_step ms (own obj) e\<rparr>)"
proof -
  have k: "members_known ms (obj\<lparr>own := pay (own obj) e\<rparr>)"
    using assms by (simp add: pay_def members_known_update)
  show "apply_expense ms e obj = Inr (obj\<lparr>own := expense_step ms (own obj) e\<rparr>)"
    using subtract_splits_known [OF k] subtract_equal_known [OF k]
    by (simp add: apply_expense_def credit_payer_known [OF assms] subtract_shares_def
        expense_step_def share_of_def)
  show "members_known ms (obj\<lparr>own := expense_step ms (own obj) e\<rparr>)"
    using assms by (simp add: members_known_def has_property_def keys_expense_step)
qed

lemma balances_after_known:
  assumes "members_known ms obj"
  shows "for_each (apply_expense ms) es obj
       = Inr (obj\<lparr>own := foldl (expense_step ms) (own obj) es\<rparr>)"
proof -
  have "for_each (apply_expense ms) es obj
      = Inr (foldl (\<lambda>obj e. obj\<lparr>own := expense_step ms (own obj) e\<rparr>) obj es)
    \<and> members_known ms (foldl (\<lambda>obj e. obj\<lparr>own := expense_step ms (own obj) e\<rparr>) obj es)"
    by (rule for_each_pure [where I = "members_known ms"])
      (use assms apply_expense_known in auto)
  then show ?thesis by (simp add: foldl_own)
qed

text \<open>
  The result for a group without a member called \<^verbatim>\<open>__proto__\<close>: no step raises, and
  the balances are those of the initial records after the updates of all expenses.
\<close>

lemma computeBalances_known:
  assumes "no_proto_id ms"
  shows "computeBalances ms es =
     (if ms = [] then Inr []
      else Inr (map snd (foldl (expense_step ms) (foldl init_step [] ms) es)))"
  using balances_after_known [OF members_known_init [OF assms], of es]
  by (simp add: computeBalances_def balances_after_def init_balances_plain [OF assms])

subsection \<open>Empty split lists\<close>

lemma for_each_map_cong:
  "map f xs = map f ys \<Longrightarrow> for_each f xs s = for_each f ys s"
proof (induction xs arbitrary: ys s)
  case Nil
  then show ?case by simp
next
  case (Cons x xs)
  then obtain y ys' where ys: "ys = y # ys'" "f x = f y" "map f xs = map f ys'"
    by (cases ys) auto
  then show ?case using Cons.IH [of ys'] by (simp split: sum.splits)
qed

lemma subtract_shares_empty_splits:
  "splits e = [] \<Longrightarrow>
     subtract_shares ms e obj
       = for_each (subtract_share (js_div (amount e) (Fin (of_nat (length ms))))) ms obj"
  by (simp add: subtract_shares_def)

text \<open>
  Claim C10 (an unequal expense without splits). An expense of type \<^verbatim>\<open>'unequal'\<close>
  whose split list is empty gives, at any place of the expense list, the same result
  as the same expense of type \<^verbatim>\<open>'equal'\<close>: its subtraction part is the loop
  over all members that subtracts the amount divided by the number of members.
\<close>

theorem unequal_without_splits_is_equal:
  "computeBalances members (before @ e\<lparr>splitType := Unequal, splits := []\<rparr> # after)
     = computeBalances members (before @ e\<lparr>splitType := Equal, splits := []\<rparr> # after)
   \<and> subtract_shares members (e\<lparr>splitType := Unequal, splits := []\<rparr>) obj
     = for_each (subtract_share (js_div (amount e) (Fin (of_nat (length members))))) members obj"
proof -
  have s: "subtract_shares members (e\<lparr>splitType := Unequal, splits := []\<rparr>) x
      = subtract_shares members (e\<lparr>splitType := Equal, splits := []\<rparr>) x" for x
    by (simp add: subtract_shares_def)
  have "apply_expense members (e\<lparr>splitType := Unequal, splits := []\<rparr>)
      = apply_expense members (e\<lparr>splitType := Equal, splits := []\<rparr>)"
    by (rule ext) (simp add: apply_expense_def credit_payer_def s split: sum.splits)
  then have "map (apply_expense members) (before @ e\<lparr>splitType := Unequal, splits := []\<rparr> # after)
      = map (apply_expense members) (before @ e\<lparr>splitType := Equal, splits := []\<rparr> # after)"
    by simp
  then have "balances_after members (before @ e\<lparr>splitType := Unequal, splits := []\<rparr> # after)
      = balances_after members (before @ e\<lparr>splitType := Equal, splits := []\<rparr> # after)"
    unfolding balances_after_def by (rule for_each_map_cong)
  then show ?thesis
    by (simp add: computeBalances_def subtract_shares_empty_splits)
qed

theorem unequal_without_splits_is_equal_witness:
  "computeBalances ab_members
      [\<lparr>paidBy = ''A'', amount = Fin 100, splitType = Unequal, splits = []\<rparr>]
     = computeBalances ab_members
      [\<lparr>paidBy = ''A'', amount = Fin 100, splitType = Equal, splits = []\<rparr>]
   \<and> computeBalances ab_members
      [\<lparr>paidBy = ''A'', amount = Fin 100, splitType = Unequal, splits = []\<rparr>]
     = Inr [\<lparr>entry_id = ''A'', entry_name = ''Ali'', balance = Fin 50\<rparr>,
            \<lparr>entry_id = ''B'', entry_name = ''Veli'', balance = Fin (- 50)\<rparr>]"
proof -
  have "computeBalances ab_members
      [\<lparr>paidBy = ''A'', amount = Fin 100, splitType = Equal, splits = []\<rparr>]
     = Inr [\<lparr>entry_id = ''A'', entry_name = ''Ali'', balance = Fin 50\<rparr>,
            \<lparr>entry_id = ''B'', entry_name = ''Veli'', balance = Fin (- 50)\<rparr>]"
    by code_simp
  with unequal_without_splits_is_equal
    [of ab_members "[]" "\<lparr>paidBy = ''A'', amount = Fin 100, splitType = Equal, splits = []\<rparr>" "[]"]
  show ?thesis by simp
qed

end
